theory Spec2Isabelle
  imports Main "HOL-Library.Sublist"
begin

section \<open>Constants of twitter.py\<close>

definition RESET_BUFFER :: int where
  "RESET_BUFFER = 60"

definition RATE_LIMIT_BUFFER :: int where
  "RATE_LIMIT_BUFFER = 5"

definition FAILURE_RETRY :: int where
  "FAILURE_RETRY = 60"

definition MAX_RETRY :: nat where
  "MAX_RETRY = 24 * 60"

section \<open>Effects: exceptions, log records, sleeps and requests\<close>

text \<open>
  The functions of twitter.py act on the world in four ways: they call \<^verbatim>\<open>req.get\<close>,
  they call \<^verbatim>\<open>sleep\<close>, they write log records, and they raise. A computation is
  modelled by its outcome together with the list of effects it performed, in order.
  \<open>Get m\<close> is one call of \<^verbatim>\<open>req.get\<close>, \<open>m\<close> being the \<^verbatim>\<open>max_id\<close> parameter
  (\<open>None\<close> while the parameter is not set); \<open>Sleep d\<close> is a completed suspension of
  \<open>d\<close> seconds; \<open>Log l\<close> is one record of level \<open>l\<close>. The exceptions carry the
  names of Python's, but for two that name where they are raised: \<open>SleepError d\<close> is
  whatever \<^verbatim>\<open>time.sleep\<close> raises when it rejects the duration \<open>d\<close>, and \<open>DateError\<close>
  is whatever the date parser raises.
\<close>

datatype exn =
  KeyError | ValueError | TypeError | DateError | SleepError int | SystemExit

datatype level = Debug | Info | Warn | Error | Critical

datatype event = Get "int option" | Log level | Sleep int

type_synonym 'a io = "(exn + 'a) \<times> event list"

definition io_return :: "'a \<Rightarrow> 'a io" where
  "io_return x = (Inr x, [])"

definition io_raise :: "exn \<Rightarrow> 'a io" where
  "io_raise e = (Inl e, [])"

definition io_bind :: "'a io \<Rightarrow> ('a \<Rightarrow> 'b io) \<Rightarrow> 'b io" where
  "io_bind m f =
     (case m of
        (Inl e, tr) \<Rightarrow> (Inl e, tr)
      | (Inr x, tr) \<Rightarrow> (case f x of (y, tr') \<Rightarrow> (y, tr @ tr')))"

text \<open>\<^verbatim>\<open>try: m  except KeyError: h\<close>: only a KeyError is handled, any other
  exception passes through.\<close>

definition except_KeyError :: "'a io \<Rightarrow> 'a io \<Rightarrow> 'a io" where
  "except_KeyError m h =
     (case m of
        (Inl KeyError, tr) \<Rightarrow> (case h of (y, tr') \<Rightarrow> (y, tr @ tr'))
      | (Inl e, tr) \<Rightarrow> (Inl e, tr)
      | (Inr x, tr) \<Rightarrow> (Inr x, tr))"

definition log :: "level \<Rightarrow> unit io" where
  "log l = (Inr (), [Log l])"

text \<open>
  \<^verbatim>\<open>time.sleep\<close> of the Python library rejects a negative argument: it raises
  (ValueError "sleep length must be non-negative" in Python 3, IOError EINVAL in
  Python 2 on POSIX) and suspends nothing. It rejects a duration that is too long as
  well: Python 3 keeps the duration as a signed 64-bit number of nanoseconds, and more
  than \<open>(2^63 - 1) div 10^9 = 9223372036\<close> seconds raise OverflowError, again with
  nothing slept. \<open>SleepError d\<close> records the rejected argument in both cases.

  Just below that limit the operating system has the last word (a deadline that no
  longer fits its clock is refused), so how far up durations are accepted depends on
  the platform. The model lets every duration up to \<open>SLEEP_MAX\<close> complete; the
  statements about completed sleeps rely on this only up to \<open>SLEEP_SAFE\<close>, the
  \<open>2^31 - 1\<close> seconds of a 32-bit \<^verbatim>\<open>time_t\<close>.
\<close>

definition SLEEP_MAX :: int where
  "SLEEP_MAX = (2 ^ 63 - 1) div 10 ^ 9"

definition SLEEP_SAFE :: int where
  "SLEEP_SAFE = 2 ^ 31 - 1"

definition sleep :: "int \<Rightarrow> unit io" where
  "sleep d =
     (if d < 0 \<or> SLEEP_MAX < d then (Inl (SleepError d), []) else (Inr (), [Sleep d]))"

section \<open>Responses and header parsing\<close>

text \<open>
  A response of \<^verbatim>\<open>requests\<close>: the status code, the headers (a dictionary keyed by
  the lower-case header name, as twitter.py indexes it) and the decoded body
  \<^verbatim>\<open>r.json()\<close>, whose type depends on the endpoint. In the loops that
  follow the body is taken as decoded JSON of the shape the endpoint documents; bodies
  that fail to decode are the subject of a later section. \<^verbatim>\<open>r.text\<close>, which only
  the log messages quote, is not modelled.
\<close>

record 'b response =
  status_code :: int
  headers :: "string \<rightharpoonup> string"
  json :: 'b

text \<open>\<^verbatim>\<open>r.headers[k]\<close> raises KeyError when the header is absent.\<close>

definition header :: "'b response \<Rightarrow> string \<Rightarrow> string io" where
  "header r k = (case headers r k of None \<Rightarrow> io_raise KeyError | Some v \<Rightarrow> io_return v)"

text \<open>
  Python's \<^verbatim>\<open>int(s)\<close> on a string: surrounding whitespace is stripped, one sign is
  allowed, and the rest must be a non-empty run of decimal digits; anything else raises
  ValueError. The strings are ASCII, as header values are; the digit separators that
  later Python versions accept (\<^verbatim>\<open>1_000\<close>) are not read as numbers here.
\<close>

definition is_space :: "char \<Rightarrow> bool" where
  "is_space c \<longleftrightarrow> List.member [CHR '' '', CHR 0x09, CHR 0x0A, CHR 0x0B, CHR 0x0C, CHR 0x0D] c"

definition strip :: "string \<Rightarrow> string" where
  "strip s = rev (dropWhile is_space (rev (dropWhile is_space s)))"

definition digit_of :: "char \<Rightarrow> nat option" where
  "digit_of c =
     (let k = (of_char c :: nat) in if 48 \<le> k \<and> k \<le> 57 then Some (k - 48) else None)"

fun digits_val :: "nat \<Rightarrow> string \<Rightarrow> nat option" where
  "digits_val acc [] = Some acc"
| "digits_val acc (c # cs) =
     (case digit_of c of None \<Rightarrow> None | Some d \<Rightarrow> digits_val (10 * acc + d) cs)"

definition py_int :: "string \<Rightarrow> int option" where
  "py_int s =
     (case strip s of
        [] \<Rightarrow> None
      | c # cs \<Rightarrow>
          if c = CHR ''-'' then
            (if cs = [] then None else map_option (\<lambda>n. - int n) (digits_val 0 cs))
          else if c = CHR ''+'' then
            (if cs = [] then None else map_option int (digits_val 0 cs))
          else map_option int (digits_val 0 (c # cs)))"

definition int_of_header :: "string \<Rightarrow> int io" where
  "int_of_header s = (case py_int s of None \<Rightarrow> io_raise ValueError | Some n \<Rightarrow> io_return n)"

text \<open>
  \<^verbatim>\<open>times.to_unix(times.parse(s))\<close> belongs to the \<^verbatim>\<open>times\<close> package, which is not
  part of twitter.py. It is a parameter \<open>clock\<close> of the model: \<open>clock s = Some t\<close>
  when the date string \<open>s\<close> parses to the unix time \<open>t\<close> (an integer:
  \<^verbatim>\<open>to_unix\<close> is \<^verbatim>\<open>calendar.timegm\<close>), \<open>None\<close> when the package raises; its
  exception, which is not a KeyError, is called \<open>DateError\<close>.
\<close>

definition unix_of_header :: "(string \<Rightarrow> int option) \<Rightarrow> string \<Rightarrow> int io" where
  "unix_of_header clock s = (case clock s of None \<Rightarrow> io_raise DateError | Some t \<Rightarrow> io_return t)"

section \<open>check_rate_limit\<close>

text \<open>Lines 29 to 49, statement by statement: the body of \<^verbatim>\<open>try\<close>, then the handler
  of \<^verbatim>\<open>except KeyError\<close>.\<close>

definition check_rate_limit :: "(string \<Rightarrow> int option) \<Rightarrow> 'b response \<Rightarrow> unit io" where
  "check_rate_limit clock r =
     except_KeyError
       (io_bind (header r ''x-rate-limit-remaining'') (\<lambda>remain.
        io_bind (int_of_header remain) (\<lambda>remain.
        if remain \<le> RATE_LIMIT_BUFFER then
          io_bind (log Debug) (\<lambda>_.
          io_bind (header r ''date'') (\<lambda>now.
          io_bind (unix_of_header clock now) (\<lambda>now.
          io_bind (header r ''x-rate-limit-reset'') (\<lambda>reset.
          io_bind (int_of_header reset) (\<lambda>reset.
          io_bind (log Debug) (\<lambda>_.
          sleep (reset - now + RESET_BUFFER)))))))
        else io_return ())))
       (io_bind (log Error) (\<lambda>_. sleep FAILURE_RETRY))"

section \<open>The retry loops\<close>

text \<open>
  \<^verbatim>\<open>req.get\<close> is the HTTP client: the model is given the list of the responses the
  server will send, in order, and each call of \<^verbatim>\<open>req.get\<close> consumes the next one
  (a call that ends in an exception of the client itself, such as a timeout, is outside
  the model).
  A run ends in one of three ways: the function returns a value, it raises, or it has
  issued a request for which the list holds no response: it is then still in its loop,
  in the state \<open>Waiting\<close> carries.
\<close>

datatype ('s, 'a) outcome = Returned 'a | Raised exn | Waiting 's

type_synonym ('s, 'a) run = "('s, 'a) outcome \<times> event list"

text \<open>A statement sequence \<open>m\<close> of the loop body, then the rest of the run \<open>k\<close>;
  an exception of \<open>m\<close> ends the run.\<close>

definition io_then :: "unit io \<Rightarrow> ('s, 'a) run \<Rightarrow> ('s, 'a) run" where
  "io_then m k =
     (case m of
        (Inl e, tr) \<Rightarrow> (Raised e, tr)
      | (Inr _, tr) \<Rightarrow> (fst k, tr @ snd k))"

text \<open>
  The head of \<^verbatim>\<open>while tries < MAX_RETRY: r = req.get(...)\<close> with the statements
  after the loop: with tries left the request \<open>rq\<close> is issued and the run goes on as
  \<open>k\<close>; otherwise \<^verbatim>\<open>log.critical(...)\<close> and \<^verbatim>\<open>raise SystemExit()\<close>.
\<close>

definition loop_head :: "nat \<Rightarrow> event \<Rightarrow> ('s, 'a) run \<Rightarrow> ('s, 'a) run" where
  "loop_head n rq k =
     (if n < MAX_RETRY then (fst k, rq # snd k) else (Raised SystemExit, [Log Critical]))"

subsection \<open>user_timeline\<close>

datatype 'a tweet = Tweet (tweet_id: int) (payload: 'a)

record 'a timeline =
  tweets :: "'a tweet list"
  ids :: "int set"
  tcount :: nat
  max_id :: "int option"
  tries :: nat

definition timeline_init :: "'a timeline" where
  "timeline_init = \<lparr>tweets = [], ids = {}, tcount = 0, max_id = None, tries = 0\<rparr>"

definition add_tweet :: "'a tweet \<Rightarrow> 'a timeline \<Rightarrow> 'a timeline" where
  "add_tweet t st =
     (if tweet_id t \<notin> ids st
      then st\<lparr>tweets := tweets st @ [t], ids := insert (tweet_id t) (ids st)\<rparr>
      else st)"

definition next_page :: "'a timeline \<Rightarrow> 'a timeline" where
  "next_page st = st\<lparr>tcount := card (ids st), max_id := Some (Min (ids st)), tries := 0\<rparr>"

definition retry :: "'a timeline \<Rightarrow> 'a timeline" where
  "retry st = st\<lparr>tries := tries st + 1\<rparr>"

text \<open>
  The loop variables of user_timeline are the fields of \<open>timeline\<close>; \<open>max_id\<close> is
  the \<^verbatim>\<open>max_id\<close> entry of \<^verbatim>\<open>params\<close>. \<open>fold add_tweet (json r) st\<close> is the \<^verbatim>\<open>for\<close> loop of lines 82
  to 85, \<open>next_page\<close> the assignments of lines 90 to 94 and \<open>retry\<close> is
  \<^verbatim>\<open>tries += 1\<close>. \<open>timeline_recv clock st rs\<close> is the loop from the arrival of the
  response to the request just issued in state \<open>st\<close>; its branches are those of lines
  81 to 118, in their order. \<^verbatim>\<open>min(ids)\<close> raises ValueError on an empty set.
\<close>

fun timeline_recv ::
  "(string \<Rightarrow> int option) \<Rightarrow> 'a timeline \<Rightarrow> 'a tweet list response list
     \<Rightarrow> ('a timeline, 'a tweet list) run" where
  "timeline_recv clock st [] = (Waiting st, [])"
| "timeline_recv clock st (r # rs) =
     (if status_code r = 200 then
        (if card (ids (fold add_tweet (json r) st)) = tcount (fold add_tweet (json r) st)
         then (Returned (tweets (fold add_tweet (json r) st)), [])
         else if ids (fold add_tweet (json r) st) = {} then (Raised ValueError, [])
         else io_then (check_rate_limit clock r)
                (loop_head (tries (next_page (fold add_tweet (json r) st)))
                   (Get (max_id (next_page (fold add_tweet (json r) st))))
                   (timeline_recv clock (next_page (fold add_tweet (json r) st)) rs)))
      else if status_code r = 400 then
        io_then (io_bind (log Info) (\<lambda>_. check_rate_limit clock r))
          (loop_head (tries (retry st)) (Get (max_id (retry st)))
             (timeline_recv clock (retry st) rs))
      else if status_code r \<in> {401, 403, 404} then
        io_then (io_bind (log Info) (\<lambda>_. check_rate_limit clock r))
          (Returned (tweets st), [])
      else
        io_then (io_bind (log Warn) (\<lambda>_. check_rate_limit clock r))
          (loop_head (tries (retry st)) (Get (max_id (retry st)))
             (timeline_recv clock (retry st) rs)))"

definition user_timeline ::
  "(string \<Rightarrow> int option) \<Rightarrow> 'a tweet list response list
     \<Rightarrow> ('a timeline, 'a tweet list) run" where
  "user_timeline clock rs =
     loop_head (tries (timeline_init :: 'a timeline)) (Get (max_id (timeline_init :: 'a timeline)))
       (timeline_recv clock timeline_init rs)"

subsection \<open>users_lookup\<close>

text \<open>The only loop variable is \<^verbatim>\<open>tries\<close>; the request never changes.\<close>

fun lookup_recv ::
  "(string \<Rightarrow> int option) \<Rightarrow> nat \<Rightarrow> 'p list response list \<Rightarrow> (nat, 'p list) run" where
  "lookup_recv clock n [] = (Waiting n, [])"
| "lookup_recv clock n (r # rs) =
     (if status_code r = 200 then
        io_then (check_rate_limit clock r) (Returned (json r), [])
      else if status_code r \<in> {403, 404} then
        io_then (io_bind (log Info) (\<lambda>_. check_rate_limit clock r)) (Returned [], [])
      else if status_code r = 400 then
        io_then (io_bind (log Info) (\<lambda>_. check_rate_limit clock r))
          (loop_head (n + 1) (Get None) (lookup_recv clock (n + 1) rs))
      else
        io_then (io_bind (log Warn) (\<lambda>_. check_rate_limit clock r))
          (loop_head (n + 1) (Get None) (lookup_recv clock (n + 1) rs)))"

definition users_lookup ::
  "(string \<Rightarrow> int option) \<Rightarrow> 'p list response list \<Rightarrow> (nat, 'p list) run" where
  "users_lookup clock rs = loop_head 0 (Get None) (lookup_recv clock 0 rs)"

subsection \<open>users_show\<close>

fun show_recv ::
  "(string \<Rightarrow> int option) \<Rightarrow> nat \<Rightarrow> 'j response list \<Rightarrow> (nat, int \<times> 'j) run" where
  "show_recv clock n [] = (Waiting n, [])"
| "show_recv clock n (r # rs) =
     (if status_code r = 200 then
        io_then (check_rate_limit clock r) (Returned (200, json r), [])
      else if status_code r \<in> {403, 404} then
        io_then (check_rate_limit clock r) (Returned (status_code r, json r), [])
      else if status_code r = 400 then
        io_then (io_bind (log Info) (\<lambda>_. check_rate_limit clock r))
          (loop_head (n + 1) (Get None) (show_recv clock (n + 1) rs))
      else
        io_then (io_bind (log Warn) (\<lambda>_. check_rate_limit clock r))
          (loop_head (n + 1) (Get None) (show_recv clock (n + 1) rs)))"

definition users_show ::
  "(string \<Rightarrow> int option) \<Rightarrow> 'j response list \<Rightarrow> (nat, int \<times> 'j) run" where
  "users_show clock rs = loop_head 0 (Get None) (show_recv clock 0 rs)"

section \<open>The loops with bodies that may fail to decode\<close>

text \<open>
  The loops above take every body as decoded. Here the body of a response is what the
  code gets when it reads it: \<open>Readable b\<close> when \<^verbatim>\<open>r.json()\<close> decodes to a value \<open>b\<close>
  of the shape the endpoint documents (for the timeline, a list of records with integer
  ids), \<open>Unreadable e\<close> when reading it raises \<open>e\<close>: ValueError from
  \<^verbatim>\<open>r.json()\<close> on a body that is not JSON, KeyError from the lookup of the id of a
  record that has none, TypeError on a value that is no list of records. The three
  functions are the same loops as above; they read the body where twitter.py does:
  user_timeline at the top of the 200 branch (lines 82 to 85), users_lookup in the
  \<^verbatim>\<open>return\<close> of the 200 branch after check_rate_limit (line 153), users_show in the
  \<^verbatim>\<open>return\<close> of the 200 and of the 403/404 branch (lines 208 and 213). No other
  branch reads the body. On readable bodies they agree with the loops above
  (\<open>raw_readable\<close> below).
\<close>

datatype 'b body = Unreadable exn | Readable 'b

fun timeline_recv_raw ::
  "(string \<Rightarrow> int option) \<Rightarrow> 'a timeline \<Rightarrow> 'a tweet list body response list
     \<Rightarrow> ('a timeline, 'a tweet list) run" where
  "timeline_recv_raw clock st [] = (Waiting st, [])"
| "timeline_recv_raw clock st (r # rs) =
     (if status_code r = 200 then
        (case json r of
           Unreadable e \<Rightarrow> (Raised e, [])
         | Readable ts \<Rightarrow>
             if card (ids (fold add_tweet ts st)) = tcount (fold add_tweet ts st)
             then (Returned (tweets (fold add_tweet ts st)), [])
             else if ids (fold add_tweet ts st) = {} then (Raised ValueError, [])
             else io_then (check_rate_limit clock r)
                    (loop_head (tries (next_page (fold add_tweet ts st)))
                       (Get (max_id (next_page (fold add_tweet ts st))))
                       (timeline_recv_raw clock (next_page (fold add_tweet ts st)) rs)))
      else if status_code r = 400 then
        io_then (io_bind (log Info) (\<lambda>_. check_rate_limit clock r))
          (loop_head (tries (retry st)) (Get (max_id (retry st)))
             (timeline_recv_raw clock (retry st) rs))
      else if status_code r \<in> {401, 403, 404} then
        io_then (io_bind (log Info) (\<lambda>_. check_rate_limit clock r))
          (Returned (tweets st), [])
      else
        io_then (io_bind (log Warn) (\<lambda>_. check_rate_limit clock r))
          (loop_head (tries (retry st)) (Get (max_id (retry st)))
             (timeline_recv_raw clock (retry st) rs)))"

definition user_timeline_raw ::
  "(string \<Rightarrow> int option) \<Rightarrow> 'a tweet list body response list
     \<Rightarrow> ('a timeline, 'a tweet list) run" where
  "user_timeline_raw clock rs =
     loop_head (tries (timeline_init :: 'a timeline)) (Get (max_id (timeline_init :: 'a timeline)))
       (timeline_recv_raw clock timeline_init rs)"

fun lookup_recv_raw ::
  "(string \<Rightarrow> int option) \<Rightarrow> nat \<Rightarrow> 'p list body response list \<Rightarrow> (nat, 'p list) run" where
  "lookup_recv_raw clock n [] = (Waiting n, [])"
| "lookup_recv_raw clock n (r # rs) =
     (if status_code r = 200 then
        io_then (check_rate_limit clock r)
          (case json r of Unreadable e \<Rightarrow> (Raised e, []) | Readable b \<Rightarrow> (Returned b, []))
      else if status_code r \<in> {403, 404} then
        io_then (io_bind (log Info) (\<lambda>_. check_rate_limit clock r)) (Returned [], [])
      else if status_code r = 400 then
        io_then (io_bind (log Info) (\<lambda>_. check_rate_limit clock r))
          (loop_head (n + 1) (Get None) (lookup_recv_raw clock (n + 1) rs))
      else
        io_then (io_bind (log Warn) (\<lambda>_. check_rate_limit clock r))
          (loop_head (n + 1) (Get None) (lookup_recv_raw clock (n + 1) rs)))"

definition users_lookup_raw ::
  "(string \<Rightarrow> int option) \<Rightarrow> 'p list body response list \<Rightarrow> (nat, 'p list) run" where
  "users_lookup_raw clock rs = loop_head 0 (Get None) (lookup_recv_raw clock 0 rs)"

fun show_recv_raw ::
  "(string \<Rightarrow> int option) \<Rightarrow> nat \<Rightarrow> 'j body response list \<Rightarrow> (nat, int \<times> 'j) run" where
  "show_recv_raw clock n [] = (Waiting n, [])"
| "show_recv_raw clock n (r # rs) =
     (if status_code r = 200 then
        io_then (check_rate_limit clock r)
          (case json r of Unreadable e \<Rightarrow> (Raised e, []) | Readable b \<Rightarrow> (Returned (200, b), []))
      else if status_code r \<in> {403, 404} then
        io_then (check_rate_limit clock r)
          (case json r of
             Unreadable e \<Rightarrow> (Raised e, [])
           | Readable b \<Rightarrow> (Returned (status_code r, b), []))
      else if status_code r = 400 then
        io_then (io_bind (log Info) (\<lambda>_. check_rate_limit clock r))
          (loop_head (n + 1) (Get None) (show_recv_raw clock (n + 1) rs))
      else
        io_then (io_bind (log Warn) (\<lambda>_. check_rate_limit clock r))
          (loop_head (n + 1) (Get None) (show_recv_raw clock (n + 1) rs)))"

definition users_show_raw ::
  "(string \<Rightarrow> int option) \<Rightarrow> 'j body response list \<Rightarrow> (nat, int \<times> 'j) run" where
  "users_show_raw clock rs = loop_head 0 (Get None) (show_recv_raw clock 0 rs)"

text \<open>A response the loop retries: its status is none of those in \<open>final\<close>, which
  end the loop, and check_rate_limit completes on it.\<close>

definition retried :: "(string \<Rightarrow> int option) \<Rightarrow> int set \<Rightarrow> 'b response \<Rightarrow> bool" where
  "retried clock final r \<longleftrightarrow>
     status_code r \<notin> final \<and> fst (check_rate_limit clock r) = Inr ()"

text \<open>A response with a decoded body, seen as one whose body reads well.\<close>

definition readable :: "'b response \<Rightarrow> 'b body response" where
  "readable r = \<lparr>status_code = status_code r, headers = headers r, json = Readable (json r)\<rparr>"

section \<open>Notions the statements use\<close>

text \<open>
  The union of a sequence of records with no duplicate ids, in first-seen order: the
  first record stays, every later record with the same id is dropped, and so on for
  the rest.
\<close>

fun first_seen :: "'a tweet list \<Rightarrow> 'a tweet list" where
  "first_seen [] = []"
| "first_seen (t # ts) = t # first_seen (filter (\<lambda>u. tweet_id u \<noteq> tweet_id t) ts)"

text \<open>Every page of the sequence holds a record whose id no earlier page (and no id
  of \<open>seen\<close>) has: its set of new records is not empty.\<close>

fun productive :: "int set \<Rightarrow> 'a tweet list response list \<Rightarrow> bool" where
  "productive seen [] = True"
| "productive seen (r # rs) =
     ((\<exists>t \<in> set (json r). tweet_id t \<notin> seen) \<and>
      productive (seen \<union> tweet_id ` set (json r)) rs)"

text \<open>The suspensions of a run, in order.\<close>

fun sleeps :: "event list \<Rightarrow> int list" where
  "sleeps [] = []"
| "sleeps (Sleep d # tr) = d # sleeps tr"
| "sleeps (Get m # tr) = sleeps tr"
| "sleeps (Log l # tr) = sleeps tr"

text \<open>A run that is waiting for a response goes on as \<open>f\<close> says once more responses
  are there; a run that has returned or raised is final.\<close>

definition resume :: "('s, 'a) run \<Rightarrow> ('s \<Rightarrow> ('s, 'a) run) \<Rightarrow> ('s, 'a) run" where
  "resume k f =
     (case k of
        (Waiting st, tr) \<Rightarrow> (fst (f st), tr @ snd (f st))
      | (Returned x, tr) \<Rightarrow> (Returned x, tr)
      | (Raised e, tr) \<Rightarrow> (Raised e, tr))"

subsection \<open>Sample inputs\<close>

text \<open>A clock that knows one HTTP date, 1000 seconds after the epoch, and three
  header dictionaries: one far from the rate limit, one whose remaining-calls value is
  not a number, and one at the rate limit whose reset time is \<open>reset\<close>.\<close>

definition sample_clock :: "string \<Rightarrow> int option" where
  "sample_clock s = (if s = ''Thu, 01 Jan 1970 00:16:40 GMT'' then Some 1000 else None)"

definition quiet_headers :: "string \<rightharpoonup> string" where
  "quiet_headers = [''x-rate-limit-remaining'' \<mapsto> ''10'']"

definition garbled_headers :: "string \<rightharpoonup> string" where
  "garbled_headers = [''x-rate-limit-remaining'' \<mapsto> ''abc'']"

definition limit_headers :: "string \<Rightarrow> string \<rightharpoonup> string" where
  "limit_headers reset =
     [''x-rate-limit-remaining'' \<mapsto> ''3'',
      ''date'' \<mapsto> ''Thu, 01 Jan 1970 00:16:40 GMT'',
      ''x-rate-limit-reset'' \<mapsto> reset]"

section \<open>Evaluating the header parsers and check_rate_limit\<close>

lemma py_int_samples:
  "py_int ''3'' = Some 3" "py_int ''10'' = Some 10" "py_int ''100'' = Some 100"
  "py_int ''1100'' = Some 1100" "py_int ''abc'' = None"
  "py_int ''10000000000'' = Some 10000000000"
  by (simp_all add: py_int_def strip_def is_space_def digit_of_def)

lemma sleep_limits: "SLEEP_MAX = 9223372036" "SLEEP_SAFE = 2147483647"
  by (simp_all add: SLEEP_MAX_def SLEEP_SAFE_def)

text \<open>The paths through check_rate_limit, one per line of the case analysis: which
  header is absent, which value does not parse, and whether the limit is hit.\<close>

lemma check_rate_limit_cases:
  "check_rate_limit clock r =
     (case headers r ''x-rate-limit-remaining'' of
        None \<Rightarrow> (Inr (), [Log Error, Sleep 60])
      | Some a \<Rightarrow>
          (case py_int a of
             None \<Rightarrow> (Inl ValueError, [])
           | Some remain \<Rightarrow>
               if remain \<le> 5 then
                 (case headers r ''date'' of
                    None \<Rightarrow> (Inr (), [Log Debug, Log Error, Sleep 60])
                  | Some b \<Rightarrow>
                      (case clock b of
                         None \<Rightarrow> (Inl DateError, [Log Debug])
                       | Some now \<Rightarrow>
                           (case headers r ''x-rate-limit-reset'' of
                              None \<Rightarrow> (Inr (), [Log Debug, Log Error, Sleep 60])
                            | Some c \<Rightarrow>
                                (case py_int c of
                                   None \<Rightarrow> (Inl ValueError, [Log Debug])
                                 | Some reset \<Rightarrow>
                                     if reset - now + 60 < 0 \<or> SLEEP_MAX < reset - now + 60
                                     then (Inl (SleepError (reset - now + 60)),
                                           [Log Debug, Log Debug])
                                     else (Inr (),
                                           [Log Debug, Log Debug, Sleep (reset - now + 60)])))))
               else (Inr (), [])))"
  by (simp add: check_rate_limit_def except_KeyError_def io_bind_def header_def
      int_of_header_def unix_of_header_def io_raise_def io_return_def log_def sleep_def
      RATE_LIMIT_BUFFER_def RESET_BUFFER_def FAILURE_RETRY_def sleep_limits
      split: option.split)

lemma sample_runs:
  "check_rate_limit clock \<lparr>status_code = s, headers = quiet_headers, json = b\<rparr> = (Inr (), [])"
  "check_rate_limit clock \<lparr>status_code = s, headers = garbled_headers, json = b\<rparr>
     = (Inl ValueError, [])"
  "check_rate_limit clock \<lparr>status_code = s, headers = Map.empty, json = b\<rparr>
     = (Inr (), [Log Error, Sleep 60])"
  "check_rate_limit sample_clock \<lparr>status_code = s, headers = limit_headers ''1100'', json = b\<rparr>
     = (Inr (), [Log Debug, Log Debug, Sleep 160])"
  "check_rate_limit sample_clock \<lparr>status_code = s, headers = limit_headers ''100'', json = b\<rparr>
     = (Inl (SleepError (- 840)), [Log Debug, Log Debug])"
  "check_rate_limit sample_clock
     \<lparr>status_code = s, headers = limit_headers ''10000000000'', json = b\<rparr>
     = (Inl (SleepError 9999999060), [Log Debug, Log Debug])"
  by (simp_all add: check_rate_limit_cases quiet_headers_def garbled_headers_def
      limit_headers_def py_int_samples sample_clock_def sleep_limits)

section \<open>The rate-limit coordinator\<close>

text \<open>
  C5, as the code has it. When the remaining-calls header parses to at most
  RATE_LIMIT_BUFFER (5), the date and reset headers are present and parse, and the reset
  time is not earlier than the server time, check_rate_limit hands
  \<open>reset - now + RESET_BUFFER\<close> to sleep after its two debug records. Either it
  returns after exactly one suspension, of that many seconds, or sleep rejects the
  duration and check_rate_limit ends with that exception, having suspended nothing. It
  suspends whenever the duration is at most SLEEP_SAFE and raises whenever it is above
  SLEEP_MAX. In particular, with 3 calls remaining and the reset 100 seconds after the
  server time, it sleeps 160 seconds.
\<close>

theorem check_rate_limit_sleeps_past_reset:
  assumes "headers r ''x-rate-limit-remaining'' = Some a" and "py_int a = Some remain"
    and "remain \<le> RATE_LIMIT_BUFFER"
    and "headers r ''date'' = Some b" and "clock b = Some now"
    and "headers r ''x-rate-limit-reset'' = Some c" and "py_int c = Some reset"
    and "now \<le> reset"
  shows "(reset - now + RESET_BUFFER \<le> SLEEP_SAFE \<longrightarrow>
            check_rate_limit clock r
              = (Inr (), [Log Debug, Log Debug, Sleep (reset - now + RESET_BUFFER)]))
       \<and> (SLEEP_MAX < reset - now + RESET_BUFFER \<longrightarrow>
            check_rate_limit clock r
              = (Inl (SleepError (reset - now + RESET_BUFFER)), [Log Debug, Log Debug]))
       \<and> (check_rate_limit clock r
              = (Inr (), [Log Debug, Log Debug, Sleep (reset - now + RESET_BUFFER)])
          \<or> check_rate_limit clock r
              = (Inl (SleepError (reset - now + RESET_BUFFER)), [Log Debug, Log Debug]))
       \<and> (remain = 3 \<and> reset = now + 100 \<longrightarrow>
            check_rate_limit clock r = (Inr (), [Log Debug, Log Debug, Sleep 160]))"
  using assms
  by (simp add: check_rate_limit_cases RATE_LIMIT_BUFFER_def RESET_BUFFER_def sleep_limits)

theorem check_rate_limit_sleeps_past_reset_witness:
  "check_rate_limit sample_clock
     \<lparr>status_code = 200, headers = limit_headers ''1100'', json = ()\<rparr>
   = (Inr (), [Log Debug, Log Debug, Sleep 160])"
  using check_rate_limit_sleeps_past_reset
    [of "\<lparr>status_code = 200, headers = limit_headers ''1100'', json = ()\<rparr>"
      "''3''" 3 "''Thu, 01 Jan 1970 00:16:40 GMT''" sample_clock 1000 "''1100''" 1100]
  by (simp add: py_int_samples sample_clock_def limit_headers_def RATE_LIMIT_BUFFER_def
      RESET_BUFFER_def sleep_limits)

text \<open>
  C5 as stated fails: with 3 calls remaining, the server time 1000 and the reset time
  10000000000, the reset is not earlier than the server time and the duration is
  \<open>10000000000 - 1000 + 60 = 9999999060\<close> seconds; sleep rejects it and
  check_rate_limit raises, having suspended nothing.
\<close>

theorem check_rate_limit_duration_rejected:
  "fst (check_rate_limit sample_clock
          \<lparr>status_code = 200, headers = limit_headers ''10000000000'', json = ()\<rparr>)
     = Inl (SleepError 9999999060)
   \<and> sleeps (snd (check_rate_limit sample_clock
          \<lparr>status_code = 200, headers = limit_headers ''10000000000'', json = ()\<rparr>)) = []"
  by (simp add: sample_runs)

text \<open>
  C10. When the remaining-calls header is present and parses to an integer above
  RATE_LIMIT_BUFFER (5), check_rate_limit returns normally with no effect at all: no
  sleep and no log record. The date and reset headers are never read: whatever they are
  set to, or if they are removed (\<open>d\<close> and \<open>x\<close> range over \<open>None\<close> too), the result is
  the same.
\<close>

theorem check_rate_limit_above_buffer:
  assumes "headers r ''x-rate-limit-remaining'' = Some a" and "py_int a = Some remain"
    and "RATE_LIMIT_BUFFER < remain"
  shows "check_rate_limit clock r = (Inr (), [])
         \<and> check_rate_limit clock
             (r\<lparr>headers := (headers r)(''date'' := d, ''x-rate-limit-reset'' := x)\<rparr>)
           = (Inr (), [])"
  using assms by (simp add: check_rate_limit_cases RATE_LIMIT_BUFFER_def)

theorem check_rate_limit_above_buffer_witness:
  "check_rate_limit sample_clock \<lparr>status_code = 200, headers = quiet_headers, json = ()\<rparr>
     = (Inr (), [])
   \<and> quiet_headers ''date'' = None \<and> quiet_headers ''x-rate-limit-reset'' = None"
  using check_rate_limit_above_buffer
    [of "\<lparr>status_code = 200, headers = quiet_headers, json = ()\<rparr>" "''10''" 10
      sample_clock None None]
  by (simp add: py_int_samples quiet_headers_def RATE_LIMIT_BUFFER_def)

text \<open>
  C1, as the code has it. For a response whose remaining-calls header parses to at most
  RATE_LIMIT_BUFFER (5), no suspension check_rate_limit performs has a negative
  duration. But a negative \<open>reset - now + RESET_BUFFER\<close> is not replaced by zero: it
  is handed to sleep as it is, sleep rejects it, and check_rate_limit ends with that
  exception after its two debug records, having suspended nothing.
\<close>

theorem check_rate_limit_negative_rejected:
  assumes "headers r ''x-rate-limit-remaining'' = Some a" and "py_int a = Some remain"
    and "remain \<le> RATE_LIMIT_BUFFER"
  shows "(\<forall>d. Sleep d \<in> set (snd (check_rate_limit clock r)) \<longrightarrow> 0 \<le> d)
       \<and> (\<forall>b now c reset.
            headers r ''date'' = Some b \<and> clock b = Some now \<and>
            headers r ''x-rate-limit-reset'' = Some c \<and> py_int c = Some reset \<and>
            reset - now + RESET_BUFFER < 0 \<longrightarrow>
            check_rate_limit clock r
              = (Inl (SleepError (reset - now + RESET_BUFFER)), [Log Debug, Log Debug]))"
  using assms
  by (auto simp add: check_rate_limit_cases RATE_LIMIT_BUFFER_def RESET_BUFFER_def
      split: option.splits if_splits)

theorem check_rate_limit_negative_rejected_witness:
  "check_rate_limit sample_clock
     \<lparr>status_code = 200, headers = limit_headers ''100'', json = ()\<rparr>
   = (Inl (SleepError (- 840)), [Log Debug, Log Debug])"
  using check_rate_limit_negative_rejected
    [of "\<lparr>status_code = 200, headers = limit_headers ''100'', json = ()\<rparr>" "''3''" 3
      sample_clock]
  by (simp add: py_int_samples sample_clock_def limit_headers_def RATE_LIMIT_BUFFER_def
      RESET_BUFFER_def)

text \<open>
  C1 as stated fails: with 3 calls remaining, the server time 1000 and the reset time
  100, the duration is \<open>100 - 1000 + 60 = -840\<close>; check_rate_limit does not sleep zero
  seconds and go on, it raises.
\<close>

theorem check_rate_limit_negative_not_zero:
  "fst (check_rate_limit sample_clock
          \<lparr>status_code = 400, headers = limit_headers ''100'', json = ()\<rparr>)
     = Inl (SleepError (- 840))
   \<and> sleeps (snd (check_rate_limit sample_clock
          \<lparr>status_code = 400, headers = limit_headers ''100'', json = ()\<rparr>)) = []"
  by (simp add: sample_runs)

text \<open>
  C6, as the code has it. check_rate_limit reads its headers one after the other and
  only as far as it needs them. When the remaining-calls header is absent, or it parses
  to at most RATE_LIMIT_BUFFER (5) and the date header is absent, or the date header
  parses as well and the reset header is absent, check_rate_limit returns normally, its
  only suspension is FAILURE_RETRY (60) seconds, and it writes an error record. It takes
  no retry counter and returns none.
\<close>

theorem check_rate_limit_missing_header:
  assumes "headers r ''x-rate-limit-remaining'' = None
         \<or> (\<exists>a remain. headers r ''x-rate-limit-remaining'' = Some a \<and> py_int a = Some remain
               \<and> remain \<le> RATE_LIMIT_BUFFER
               \<and> (headers r ''date'' = None
                  \<or> (\<exists>b now. headers r ''date'' = Some b \<and> clock b = Some now
                        \<and> headers r ''x-rate-limit-reset'' = None)))"
  shows "fst (check_rate_limit clock r) = Inr ()
       \<and> sleeps (snd (check_rate_limit clock r)) = [FAILURE_RETRY]
       \<and> Log Error \<in> set (snd (check_rate_limit clock r))"
  using assms
  by (auto simp add: check_rate_limit_cases RATE_LIMIT_BUFFER_def FAILURE_RETRY_def)

theorem check_rate_limit_missing_header_witness:
  "fst (check_rate_limit sample_clock
     \<lparr>status_code = 200, headers = (limit_headers ''1100'')(''x-rate-limit-reset'' := None),
      json = ()\<rparr>)
   = Inr ()
   \<and> sleeps (snd (check_rate_limit sample_clock
     \<lparr>status_code = 200, headers = (limit_headers ''1100'')(''x-rate-limit-reset'' := None),
      json = ()\<rparr>))
   = [60]"
  using check_rate_limit_missing_header
    [of "\<lparr>status_code = 200,
          headers = (limit_headers ''1100'')(''x-rate-limit-reset'' := None), json = ()\<rparr>"
      sample_clock]
  by (simp add: py_int_samples sample_clock_def limit_headers_def RATE_LIMIT_BUFFER_def
      FAILURE_RETRY_def)

text \<open>
  C6 as stated fails: a response with 10 calls remaining and a date header, from which
  the reset header is absent, causes no suspension and no error record.
\<close>

theorem check_rate_limit_reset_absent_no_backoff:
  "check_rate_limit sample_clock
     \<lparr>status_code = 200,
      headers = quiet_headers(''date'' \<mapsto> ''Thu, 01 Jan 1970 00:16:40 GMT''), json = ()\<rparr>
   = (Inr (), [])
   \<and> (quiet_headers(''date'' \<mapsto> ''Thu, 01 Jan 1970 00:16:40 GMT'')) ''x-rate-limit-reset''
     = None"
  by (simp add: check_rate_limit_cases quiet_headers_def py_int_samples)

section \<open>Runs of the loops\<close>

lemma log_bind: "io_bind (log l) (\<lambda>_. m) = (fst m, Log l # snd m)"
  by (simp add: io_bind_def log_def split: prod.split)

lemma io_then_fst:
  "fst (io_then m k) = (case fst m of Inl e \<Rightarrow> Raised e | Inr u \<Rightarrow> fst k)"
  by (simp add: io_then_def split: prod.split sum.split)

lemma io_then_Inr: "fst m = Inr u \<Longrightarrow> io_then m k = (fst k, snd m @ snd k)"
  by (cases m) (simp add: io_then_def)

lemma io_then_Inl: "fst m = Inl e \<Longrightarrow> io_then m k = (Raised e, snd m)"
  by (cases m) (simp add: io_then_def)

lemma resume_final:
  "resume (Returned x, tr) f = (Returned x, tr)" "resume (Raised e, tr) f = (Raised e, tr)"
  "resume (Waiting st, tr) f = (fst (f st), tr @ snd (f st))"
  by (simp_all add: resume_def)

lemma resume_io_then: "resume (io_then m k) f = io_then m (resume k f)"
  by (cases m; cases k; cases "fst m"; cases "fst k")
     (auto simp add: io_then_def resume_def split: sum.splits outcome.splits)

lemma resume_loop_head: "resume (loop_head n rq k) f = loop_head n rq (resume k f)"
  by (cases k; cases "fst k") (auto simp add: loop_head_def resume_def split: outcome.splits)

lemma timeline_recv_append:
  "timeline_recv clock st (pre @ rest)
     = resume (timeline_recv clock st pre) (\<lambda>st'. timeline_recv clock st' rest)"
proof (induction pre arbitrary: st)
  case Nil
  show ?case by (simp add: resume_def)
next
  case (Cons r pre)
  show ?case
    by (simp add: Cons.IH resume_io_then resume_loop_head resume_final)
qed

lemma user_timeline_append:
  "user_timeline clock (pre @ rest)
     = resume (user_timeline clock pre) (\<lambda>st'. timeline_recv clock st' rest)"
  by (simp add: user_timeline_def timeline_recv_append resume_loop_head)

lemma loop_head_fst:
  "fst (loop_head n rq k) = (if n < MAX_RETRY then fst k else Raised SystemExit)"
  by (simp add: loop_head_def)

lemma io_then_loop_Waiting:
  "io_then m (loop_head n rq k) = (Waiting s, tr) \<longleftrightarrow>
     (\<exists>u. fst m = Inr u) \<and> n < MAX_RETRY \<and> fst k = Waiting s \<and> tr = snd m @ rq # snd k"
  by (cases m; cases "fst m") (auto simp add: io_then_def loop_head_def)

lemma io_then_final_Waiting:
  "io_then m (Returned x, tr') \<noteq> (Waiting s, tr)"
  by (cases m; cases "fst m") (auto simp add: io_then_def)

lemma fold_add_tweet_seen:
  "\<forall>t \<in> set ts. tweet_id t \<in> ids st \<Longrightarrow> fold add_tweet ts st = st"
  by (induction ts) (simp_all add: add_tweet_def)

lemma next_page_simps:
  "tcount (next_page st) = card (ids st)" "ids (next_page st) = ids st"
  "tweets (next_page st) = tweets st" "tries (next_page st) = 0"
  "max_id (next_page st) = Some (Min (ids st))"
  by (simp_all add: next_page_def)

lemma retry_simps:
  "tcount (retry st) = tcount st" "ids (retry st) = ids st"
  "tweets (retry st) = tweets st" "tries (retry st) = Suc (tries st)"
  "max_id (retry st) = max_id st"
  by (simp_all add: retry_def)

lemma timeline_recv_Waiting:
  "timeline_recv clock st rs = (Waiting st', tr) \<Longrightarrow> tcount st = card (ids st) \<Longrightarrow>
     tcount st' = card (ids st') \<and> last (Get (max_id st) # tr) = Get (max_id st')"
proof (induction rs arbitrary: st tr)
  case Nil
  then show ?case by simp
next
  case (Cons r rs)
  let ?s1 = "fold add_tweet (json r) st"
  consider (page) "status_code r = 200" | (retry) "status_code r \<noteq> 200" "status_code r \<notin> {401, 403, 404}"
    | (gone) "status_code r \<in> {401, 403, 404}" by blast
  then show ?case
  proof cases
    case page
    with Cons.prems(1) have w: "timeline_recv clock (next_page ?s1) rs = (Waiting st', snd (timeline_recv clock (next_page ?s1) rs))"
      and tr: "tr = snd (check_rate_limit clock r) @ Get (max_id (next_page ?s1)) # snd (timeline_recv clock (next_page ?s1) rs)"
      by (auto simp add: io_then_loop_Waiting split: if_splits intro: prod_eqI)
    from Cons.IH [OF w] have "tcount st' = card (ids st')"
      and "last (Get (max_id (next_page ?s1)) # snd (timeline_recv clock (next_page ?s1) rs)) = Get (max_id st')"
      by (simp_all add: next_page_simps)
    then show ?thesis by (simp add: tr)
  next
    case retry
    with Cons.prems(1) have w: "timeline_recv clock (retry st) rs = (Waiting st', snd (timeline_recv clock (retry st) rs))"
      and tr: "\<exists>tr0. tr = tr0 @ Get (max_id (retry st)) # snd (timeline_recv clock (retry st) rs)"
      by (auto simp add: io_then_loop_Waiting split: if_splits intro: prod_eqI)
    from Cons.IH [OF w] Cons.prems(2) have "tcount st' = card (ids st')"
      and "last (Get (max_id (retry st)) # snd (timeline_recv clock (retry st) rs)) = Get (max_id st')"
      by (simp_all add: retry_simps)
    with tr show ?thesis by auto
  next
    case gone
    with Cons.prems(1) show ?thesis
      by (auto simp add: io_then_final_Waiting split: if_splits)
  qed
qed

lemma user_timeline_Waiting:
  assumes "user_timeline clock pre = (Waiting st, tr)"
  shows "tcount st = card (ids st) \<and> last tr = Get (max_id st)
       \<and> (\<exists>tr0. tr = Get None # tr0 \<and> timeline_recv clock timeline_init pre = (Waiting st, tr0))"
proof -
  from assms have w: "timeline_recv clock timeline_init pre
      = (Waiting st, snd (timeline_recv clock timeline_init pre))"
    and tr: "tr = Get None # snd (timeline_recv clock timeline_init pre)"
    by (auto simp add: user_timeline_def loop_head_def timeline_init_def split: if_splits intro: prod_eqI)
  from timeline_recv_Waiting [OF w] have "tcount st = card (ids st)"
    and "last (Get None # snd (timeline_recv clock timeline_init pre)) = Get (max_id st)"
    by (simp_all add: timeline_init_def)
  with tr w show ?thesis by auto
qed

lemma lookup_recv_retries:
  "\<forall>r \<in> set rs. status_code r \<notin> {200, 403, 404} \<and> fst (check_rate_limit clock r) = Inr () \<Longrightarrow>
   n < MAX_RETRY \<Longrightarrow>
   fst (lookup_recv clock n rs)
     = (if n + length rs < MAX_RETRY then Waiting (n + length rs) else Raised SystemExit)"
proof (induction rs arbitrary: n)
  case Nil
  then show ?case by simp
next
  case (Cons r rs)
  from Cons.prems have r: "status_code r \<noteq> 200" "status_code r \<noteq> 403" "status_code r \<noteq> 404"
    and ok: "fst (check_rate_limit clock r) = Inr ()" by simp_all
  have step: "fst (lookup_recv clock n (r # rs))
      = (if n + 1 < MAX_RETRY then fst (lookup_recv clock (n + 1) rs) else Raised SystemExit)"
    using r ok by (simp add: io_then_fst log_bind loop_head_fst)
  show ?case
  proof (cases "n + 1 < MAX_RETRY")
    case True
    with Cons.IH [of "n + 1"] Cons.prems(1) step show ?thesis by simp
  next
    case False
    with step show ?thesis by simp
  qed
qed

lemma show_recv_retries:
  "\<forall>q \<in> set pre. status_code q \<notin> {200, 403, 404} \<and> fst (check_rate_limit clock q) = Inr () \<Longrightarrow>
   n + length pre < MAX_RETRY \<Longrightarrow>
   fst (show_recv clock n (pre @ rest)) = fst (show_recv clock (n + length pre) rest)"
proof (induction pre arbitrary: n)
  case Nil
  then show ?case by simp
next
  case (Cons q pre)
  from Cons.prems have q: "status_code q \<noteq> 200" "status_code q \<noteq> 403" "status_code q \<noteq> 404"
    and ok: "fst (check_rate_limit clock q) = Inr ()" and n: "n + 1 < MAX_RETRY" by simp_all
  have "fst (show_recv clock n ((q # pre) @ rest)) = fst (show_recv clock (n + 1) (pre @ rest))"
    using q ok n by (simp add: io_then_fst log_bind loop_head_fst)
  with Cons.IH [of "n + 1"] Cons.prems show ?case by simp
qed

lemma show_recv_Returned:
  "fst (show_recv clock n rs) = Returned (s, b) \<Longrightarrow>
     s \<in> {200, 403, 404} \<and> (\<exists>q \<in> set rs. status_code q = s \<and> json q = b)"
proof (induction rs arbitrary: n)
  case Nil
  then show ?case by simp
next
  case (Cons r rs)
  show ?case
  proof (cases "status_code r \<in> {200, 403, 404}")
    case True
    with Cons.prems show ?thesis
      by (auto simp add: io_then_fst split: sum.splits if_splits)
  next
    case False
    with Cons.prems have "fst (show_recv clock (n + 1) rs) = Returned (s, b)"
      by (auto simp add: io_then_fst log_bind loop_head_fst split: sum.splits if_splits)
    from Cons.IH [OF this] show ?thesis by auto
  qed
qed

lemma check_rate_limit_raises:
  "fst (check_rate_limit clock r) = Inl e \<Longrightarrow>
     e = ValueError \<or> e = DateError \<or> (\<exists>d. (d < 0 \<or> SLEEP_SAFE < d) \<and> e = SleepError d)"
  by (auto simp add: check_rate_limit_cases sleep_limits split: option.splits if_splits)

lemma fold_add_tweet_fields:
  "ids (fold add_tweet ts st) = ids st \<union> tweet_id ` set ts"
  "tcount (fold add_tweet ts st) = tcount st"
  "tries (fold add_tweet ts st) = tries st"
  "max_id (fold add_tweet ts st) = max_id st"
  by (induction ts arbitrary: st) (auto simp add: add_tweet_def)

section \<open>user_timeline: the pages that end the fetch\<close>

text \<open>
  C3. Let user_timeline be waiting for the response to its latest request, in loop state
  \<open>st\<close> after the effects \<open>tr\<close>. If that response has status 200 and every id in it
  is already in \<open>ids st\<close>, user_timeline returns the accumulated list \<open>tweets st\<close> and
  its effects are still \<open>tr\<close>, whose last element is the request this page answers: no
  further request is issued (the responses \<open>rest\<close> are never asked for), and nothing is
  slept or logged, whatever the headers of the page are, so check_rate_limit is not run.
\<close>

theorem user_timeline_stops_without_new_ids:
  assumes "user_timeline clock pre = (Waiting st, tr)"
    and "status_code r = 200"
    and "\<forall>t \<in> set (json r). tweet_id t \<in> ids st"
  shows "user_timeline clock (pre @ r # rest) = (Returned (tweets st), tr)
       \<and> last tr = Get (max_id st)"
proof -
  from user_timeline_Waiting [OF assms(1)] have inv: "tcount st = card (ids st)"
    and l: "last tr = Get (max_id st)" by simp_all
  have "timeline_recv clock st (r # rest) = (Returned (tweets st), [])"
    using assms(2,3) inv by (simp add: fold_add_tweet_seen)
  then have "user_timeline clock (pre @ r # rest) = (Returned (tweets st), tr)"
    by (simp add: user_timeline_append assms(1) resume_final)
  with l show ?thesis by simp
qed

theorem user_timeline_stops_without_new_ids_witness:
  "user_timeline sample_clock
     [\<lparr>status_code = 200, headers = quiet_headers, json = [Tweet 5 ''a'', Tweet 4 ''b'']\<rparr>,
      \<lparr>status_code = 200, headers = garbled_headers, json = [Tweet 4 ''b'']\<rparr>,
      \<lparr>status_code = 200, headers = quiet_headers, json = [Tweet 3 ''c'']\<rparr>]
   = (Returned [Tweet 5 ''a'', Tweet 4 ''b''], [Get None, Get (Some 4)])"
  using user_timeline_stops_without_new_ids
    [of sample_clock
      "[\<lparr>status_code = 200, headers = quiet_headers, json = [Tweet 5 ''a'', Tweet 4 ''b'']\<rparr>]"
      "\<lparr>tweets = [Tweet 5 ''a'', Tweet 4 ''b''], ids = {4, 5}, tcount = 2,
        max_id = Some 4, tries = 0\<rparr>"
      "[Get None, Get (Some 4)]"
      "\<lparr>status_code = 200, headers = garbled_headers, json = [Tweet 4 ''b'']\<rparr>"
      "[\<lparr>status_code = 200, headers = quiet_headers, json = [Tweet 3 ''c'']\<rparr>]"]
  by (simp add: user_timeline_def timeline_init_def add_tweet_def next_page_def sample_runs
      io_then_def loop_head_def MAX_RETRY_def)

text \<open>
  C7, as the code has it. Let user_timeline be waiting for the response to its latest
  request, in loop state \<open>st\<close> after the effects \<open>tr\<close>. If that response has status
  401, 403 or 404 and check_rate_limit completes on it with the effects \<open>tr'\<close>,
  user_timeline writes an info record, runs check_rate_limit and returns \<open>tweets st\<close>,
  the records accumulated before that response; when it is the first response, the
  result is the empty list.
\<close>

theorem user_timeline_not_found_returns_accumulated:
  assumes "user_timeline clock pre = (Waiting st, tr)"
    and "status_code r \<in> {401, 403, 404}"
    and "check_rate_limit clock r = (Inr (), tr')"
  shows "user_timeline clock (pre @ r # rest) = (Returned (tweets st), tr @ Log Info # tr')
       \<and> user_timeline clock (r # rest) = (Returned [], Get None # Log Info # tr')"
proof -
  have step: "timeline_recv clock s (r # rest) = (Returned (tweets s), Log Info # tr')" for s
    using assms(2,3) by (auto simp add: log_bind io_then_def)
  have "user_timeline clock (pre @ r # rest) = (Returned (tweets st), tr @ Log Info # tr')"
    by (simp only: user_timeline_append assms(1) resume_final step fst_conv snd_conv)
  moreover have "user_timeline clock (r # rest) = (Returned [], Get None # Log Info # tr')"
    by (simp only: user_timeline_def step) (simp add: loop_head_def timeline_init_def MAX_RETRY_def)
  ultimately show ?thesis by simp
qed

theorem user_timeline_not_found_returns_accumulated_witness:
  "user_timeline sample_clock
     [\<lparr>status_code = 200, headers = quiet_headers, json = [Tweet 5 ''a'', Tweet 4 ''b'']\<rparr>,
      \<lparr>status_code = 404, headers = Map.empty, json = []\<rparr>]
   = (Returned [Tweet 5 ''a'', Tweet 4 ''b''],
      [Get None, Get (Some 4), Log Info, Log Error, Sleep 60])"
  using user_timeline_not_found_returns_accumulated
    [of sample_clock
      "[\<lparr>status_code = 200, headers = quiet_headers, json = [Tweet 5 ''a'', Tweet 4 ''b'']\<rparr>]"
      "\<lparr>tweets = [Tweet 5 ''a'', Tweet 4 ''b''], ids = {4, 5}, tcount = 2,
        max_id = Some 4, tries = 0\<rparr>"
      "[Get None, Get (Some 4)]"
      "\<lparr>status_code = 404, headers = Map.empty, json = []\<rparr>"
      "[Log Error, Sleep 60]" "[]"]
  by (simp add: user_timeline_def timeline_init_def add_tweet_def next_page_def sample_runs
      io_then_def loop_head_def MAX_RETRY_def)

text \<open>
  C7 as stated fails: a 404 response whose remaining-calls header is not a number makes
  check_rate_limit raise ValueError, which no handler catches; user_timeline raises
  instead of returning the (empty) list.
\<close>

theorem user_timeline_not_found_raises:
  "user_timeline sample_clock
     [\<lparr>status_code = 404, headers = garbled_headers, json = ([] :: unit tweet list)\<rparr>]
   = (Raised ValueError, [Get None, Log Info])"
  by (simp add: user_timeline_def timeline_init_def sample_runs log_bind io_then_def
      loop_head_def MAX_RETRY_def)

section \<open>user_timeline: what a complete fetch returns\<close>

lemma first_seen_subset: "set (first_seen xs) \<subseteq> set xs"
  by (induction xs rule: first_seen.induct) auto

lemma first_seen_ids: "tweet_id ` set (first_seen xs) = tweet_id ` set xs"
  by (induction xs rule: first_seen.induct) auto

lemma first_seen_distinct: "distinct (map tweet_id (first_seen xs))"
proof (induction xs rule: first_seen.induct)
  case 1
  show ?case by simp
next
  case (2 t ts)
  have "tweet_id t \<notin> tweet_id ` set (first_seen (filter (\<lambda>u. tweet_id u \<noteq> tweet_id t) ts))"
    using first_seen_subset [of "filter (\<lambda>u. tweet_id u \<noteq> tweet_id t) ts"] by auto
  with 2 show ?case by simp
qed

lemma first_seen_subseq: "subseq (first_seen xs) xs"
proof (induction xs rule: first_seen.induct)
  case 1
  show ?case by simp
next
  case (2 t ts)
  have "subseq (filter (\<lambda>u. tweet_id u \<noteq> tweet_id t) ts) ts" by simp
  with 2 have "subseq (first_seen (filter (\<lambda>u. tweet_id u \<noteq> tweet_id t) ts)) ts"
    by (rule subseq_order.trans)
  then show ?case by simp
qed

lemma find_filter_implied:
  "(\<And>x. P x \<Longrightarrow> Q x) \<Longrightarrow> find P (filter Q xs) = find P xs"
  by (induction xs) auto

lemma first_seen_find:
  "t \<in> set (first_seen xs) \<Longrightarrow> find (\<lambda>u. tweet_id u = tweet_id t) xs = Some t"
proof (induction xs rule: first_seen.induct)
  case 1
  then show ?case by simp
next
  case (2 x xs)
  show ?case
  proof (cases "t = x")
    case True
    then show ?thesis by simp
  next
    case False
    with 2 have mem: "t \<in> set (first_seen (filter (\<lambda>u. tweet_id u \<noteq> tweet_id x) xs))" by simp
    with first_seen_subset have "t \<in> set (filter (\<lambda>u. tweet_id u \<noteq> tweet_id x) xs)" by blast
    then have ne: "tweet_id t \<noteq> tweet_id x" by simp
    from 2 mem have "find (\<lambda>u. tweet_id u = tweet_id t) (filter (\<lambda>u. tweet_id u \<noteq> tweet_id x) xs) = Some t"
      by simp
    moreover have "find (\<lambda>u. tweet_id u = tweet_id t) (filter (\<lambda>u. tweet_id u \<noteq> tweet_id x) xs)
        = find (\<lambda>u. tweet_id u = tweet_id t) xs"
      using ne by (intro find_filter_implied) simp
    ultimately show ?thesis using ne by simp
  qed
qed

lemma first_seen_snoc:
  "first_seen (xs @ [t])
     = (if tweet_id t \<in> tweet_id ` set xs then first_seen xs else first_seen xs @ [t])"
proof (induction xs rule: first_seen.induct)
  case 1
  show ?case by simp
next
  case (2 x xs)
  show ?case
  proof (cases "tweet_id t = tweet_id x")
    case True
    then show ?thesis by simp
  next
    case False
    then have "tweet_id t \<in> tweet_id ` set (filter (\<lambda>u. tweet_id u \<noteq> tweet_id x) xs)
        \<longleftrightarrow> tweet_id t \<in> tweet_id ` set xs" by auto
    with 2 False show ?thesis by simp
  qed
qed

lemma fold_add_tweet_first_seen:
  "tweets st = first_seen acc \<Longrightarrow> ids st = tweet_id ` set acc \<Longrightarrow>
     tweets (fold add_tweet ts st) = first_seen (acc @ ts)"
proof (induction ts arbitrary: st acc)
  case Nil
  then show ?case by simp
next
  case (Cons t ts)
  have "tweets (add_tweet t st) = first_seen (acc @ [t])"
    and "ids (add_tweet t st) = tweet_id ` set (acc @ [t])"
    using Cons.prems by (auto simp add: add_tweet_def first_seen_snoc)
  from Cons.IH [OF this] show ?case by simp
qed

lemma resume_fst:
  "fst (resume k f) = (case fst k of Waiting st \<Rightarrow> fst (f st) | Returned x \<Rightarrow> Returned x
     | Raised e \<Rightarrow> Raised e)"
  by (cases k; cases "fst k") (auto simp add: resume_def)

lemma timeline_recv_pages:
  "\<forall>r \<in> set ps. status_code r = 200 \<and> fst (check_rate_limit clock r) = Inr () \<Longrightarrow>
   productive (tweet_id ` set acc) ps \<Longrightarrow>
   tweets st = first_seen acc \<Longrightarrow> ids st = tweet_id ` set acc \<Longrightarrow> tcount st = card (ids st) \<Longrightarrow>
   \<exists>st'. fst (timeline_recv clock st ps) = Waiting st'
      \<and> tweets st' = first_seen (acc @ concat (map json ps))
      \<and> ids st' = tweet_id ` set (acc @ concat (map json ps))
      \<and> tcount st' = card (ids st')"
proof (induction ps arbitrary: st acc)
  case Nil
  then show ?case by simp
next
  case (Cons r ps)
  let ?s1 = "fold add_tweet (json r) st"
  from Cons.prems(1) have r: "status_code r = 200" and ok: "fst (check_rate_limit clock r) = Inr ()"
    by simp_all
  have ids1: "ids ?s1 = tweet_id ` set (acc @ json r)"
    using Cons.prems(4) by (simp add: fold_add_tweet_fields image_Un)
  have tw1: "tweets ?s1 = first_seen (acc @ json r)"
    using Cons.prems(3,4) by (rule fold_add_tweet_first_seen)
  from Cons.prems(2) obtain t where "t \<in> set (json r)" "tweet_id t \<notin> tweet_id ` set acc" by auto
  then have "ids st \<subset> ids ?s1" using Cons.prems(4) ids1 by auto
  moreover have "finite (ids ?s1)" by (simp add: ids1)
  ultimately have "card (ids st) < card (ids ?s1)" by (intro psubset_card_mono)
  then have grow: "card (ids ?s1) \<noteq> tcount ?s1" and ne: "ids ?s1 \<noteq> {}"
    using Cons.prems(5) by (auto simp add: fold_add_tweet_fields(2))
  have step: "fst (timeline_recv clock st (r # ps)) = fst (timeline_recv clock (next_page ?s1) ps)"
    using r ok grow ne by (simp add: io_then_fst loop_head_fst next_page_simps MAX_RETRY_def)
  have "productive (tweet_id ` set (acc @ json r)) ps"
    using Cons.prems(2) by (simp add: image_Un)
  moreover have "\<forall>r \<in> set ps. status_code r = 200 \<and> fst (check_rate_limit clock r) = Inr ()"
    using Cons.prems(1) by simp
  ultimately obtain st' where "fst (timeline_recv clock (next_page ?s1) ps) = Waiting st'"
    and "tweets st' = first_seen ((acc @ json r) @ concat (map json ps))"
    and "ids st' = tweet_id ` set ((acc @ json r) @ concat (map json ps))"
    and "tcount st' = card (ids st')"
    using Cons.IH [of "acc @ json r" "next_page ?s1"] tw1 ids1
    by (auto simp add: next_page_simps)
  with step show ?case by auto
qed

text \<open>
  C2, as the code has it. Let \<open>ps\<close> be status-200 pages each of which holds a record
  with an id that no earlier page has, and on each of which check_rate_limit completes;
  let \<open>fin\<close> be a status-200 page that holds no new id. Before \<open>fin\<close> arrives
  user_timeline is still requesting and holds \<open>first_seen\<close> of the pages so far; on
  \<open>fin\<close> it returns \<open>first_seen\<close> of the records of all pages in order of arrival.
  That list has no duplicate ids, holds every id of every page, keeps the order of
  arrival, and for each id holds the record that arrived first.
\<close>

theorem user_timeline_collects_first_seen:
  assumes "\<forall>r \<in> set ps. status_code r = 200 \<and> fst (check_rate_limit clock r) = Inr ()"
    and "productive {} ps"
    and "status_code fin = 200"
    and "tweet_id ` set (json fin) \<subseteq> tweet_id ` set (concat (map json ps))"
  shows "fst (user_timeline clock (ps @ fin # rest))
           = Returned (first_seen (concat (map json (ps @ [fin]))))
       \<and> (\<exists>st. fst (user_timeline clock ps) = Waiting st
             \<and> tweets st = first_seen (concat (map json ps)))
       \<and> distinct (map tweet_id (first_seen (concat (map json (ps @ [fin])))))
       \<and> tweet_id ` set (first_seen (concat (map json (ps @ [fin]))))
           = tweet_id ` set (concat (map json (ps @ [fin])))
       \<and> subseq (first_seen (concat (map json (ps @ [fin])))) (concat (map json (ps @ [fin])))
       \<and> (\<forall>t \<in> set (first_seen (concat (map json (ps @ [fin])))).
             find (\<lambda>u. tweet_id u = tweet_id t) (concat (map json (ps @ [fin]))) = Some t)"
proof -
  obtain st where w: "fst (timeline_recv clock timeline_init ps) = Waiting st"
    and tw: "tweets st = first_seen (concat (map json ps))"
    and ids: "ids st = tweet_id ` set (concat (map json ps))"
    and tc: "tcount st = card (ids st)"
    using timeline_recv_pages [OF assms(1), of "[]" timeline_init] assms(2)
    by (auto simp add: timeline_init_def)
  let ?s1 = "fold add_tweet (json fin) st"
  have "ids ?s1 = ids st" using assms(4) ids by (auto simp add: fold_add_tweet_fields)
  then have "card (ids ?s1) = tcount ?s1" using tc by (simp add: fold_add_tweet_fields(2))
  moreover have "tweets ?s1 = first_seen (concat (map json ps) @ json fin)"
    using tw ids by (rule fold_add_tweet_first_seen)
  ultimately have "fst (timeline_recv clock st (fin # rest))
      = Returned (first_seen (concat (map json (ps @ [fin]))))"
    using assms(3) by simp
  then have "fst (user_timeline clock (ps @ fin # rest))
      = Returned (first_seen (concat (map json (ps @ [fin]))))"
    using w by (simp add: user_timeline_def loop_head_fst timeline_init_def MAX_RETRY_def
        timeline_recv_append resume_fst)
  moreover have "fst (user_timeline clock ps) = Waiting st"
    using w by (simp add: user_timeline_def loop_head_fst timeline_init_def MAX_RETRY_def)
  ultimately show ?thesis
    using tw first_seen_distinct first_seen_ids first_seen_subseq first_seen_find by blast
qed

theorem user_timeline_collects_first_seen_witness:
  "fst (user_timeline sample_clock
     [\<lparr>status_code = 200, headers = quiet_headers,
        json = [Tweet 5 ''a'', Tweet 4 ''b'', Tweet 5 ''c'']\<rparr>,
      \<lparr>status_code = 200, headers = limit_headers ''1100'',
        json = [Tweet 4 ''b'', Tweet 3 ''d'']\<rparr>,
      \<lparr>status_code = 200, headers = Map.empty, json = [Tweet 3 ''d'']\<rparr>])
   = Returned [Tweet 5 ''a'', Tweet 4 ''b'', Tweet 3 ''d'']"
proof -
  let ?ps = "[\<lparr>status_code = 200, headers = quiet_headers,
                json = [Tweet 5 ''a'', Tweet 4 ''b'', Tweet 5 ''c'']\<rparr>,
              \<lparr>status_code = 200, headers = limit_headers ''1100'',
                json = [Tweet 4 ''b'', Tweet 3 ''d'']\<rparr>]"
  let ?fin = "\<lparr>status_code = 200, headers = Map.empty, json = [Tweet 3 ''d'']\<rparr>"
  have pages: "\<forall>r \<in> set ?ps. status_code r = 200 \<and> fst (check_rate_limit sample_clock r) = Inr ()"
    by (simp add: sample_runs)
  have new: "productive {} ?ps" by auto
  have fin: "status_code ?fin = 200" by simp
  have seen: "tweet_id ` set (json ?fin) \<subseteq> tweet_id ` set (concat (map json ?ps))" by simp
  from user_timeline_collects_first_seen [OF pages new fin seen, of "[]"] show ?thesis by simp
qed

text \<open>
  C2 as stated fails: two pages with new records and decreasing minimum ids, then an
  empty page; the remaining-calls header of the first page is not a number, so
  check_rate_limit raises ValueError after the first page and nothing is returned.
\<close>

theorem user_timeline_page_raises:
  "user_timeline sample_clock
     [\<lparr>status_code = 200, headers = garbled_headers, json = [Tweet 5 ''a'']\<rparr>,
      \<lparr>status_code = 200, headers = quiet_headers, json = [Tweet 4 ''b'']\<rparr>,
      \<lparr>status_code = 200, headers = quiet_headers, json = []\<rparr>]
   = (Raised ValueError, [Get None])"
  by (simp add: user_timeline_def timeline_init_def add_tweet_def next_page_def sample_runs
      io_then_def loop_head_def MAX_RETRY_def)

section \<open>users_lookup and users_show\<close>

text \<open>
  C4, as the code has it. Let every response of the run have a status other than 200,
  403 and 404, and let check_rate_limit complete on each. After exactly MAX_RETRY (1440)
  such responses users_lookup raises SystemExit; after MAX_RETRY - 1 of them it has
  raised nothing and returned nothing: it has issued one more request and waits for the
  response, with \<open>tries = 1439\<close>.
\<close>

theorem users_lookup_retry_ceiling:
  assumes "\<forall>r \<in> set rs. status_code r \<notin> {200, 403, 404}
             \<and> fst (check_rate_limit clock r) = Inr ()"
  shows "(length rs = MAX_RETRY \<longrightarrow> fst (users_lookup clock rs) = Raised SystemExit)
       \<and> (length rs = MAX_RETRY - 1 \<longrightarrow>
            fst (users_lookup clock rs) = Waiting (MAX_RETRY - 1))"
  using lookup_recv_retries [OF assms, of 0]
  by (simp add: users_lookup_def loop_head_fst MAX_RETRY_def)

theorem users_lookup_retry_ceiling_witness:
  "fst (users_lookup sample_clock
      (replicate 1440 \<lparr>status_code = 500, headers = Map.empty, json = ([] :: unit list)\<rparr>))
     = Raised SystemExit
   \<and> fst (users_lookup sample_clock
      (replicate 1439 \<lparr>status_code = 400, headers = quiet_headers, json = ([] :: unit list)\<rparr>))
     = Waiting 1439"
  using users_lookup_retry_ceiling
      [of "replicate 1440 \<lparr>status_code = 500, headers = Map.empty, json = ([] :: unit list)\<rparr>"
        sample_clock]
    users_lookup_retry_ceiling
      [of "replicate 1439 \<lparr>status_code = 400, headers = quiet_headers, json = ([] :: unit list)\<rparr>"
        sample_clock]
  by (simp add: sample_runs MAX_RETRY_def)

text \<open>
  C4 as stated fails: 404 is not 200, and on 1440 consecutive 404 responses users_lookup
  returns the empty list at the first of them; it never reaches SystemExit.
\<close>

theorem users_lookup_not_found_ends_retries:
  "users_lookup sample_clock
      (replicate 1440 \<lparr>status_code = 404, headers = quiet_headers, json = ([] :: unit list)\<rparr>)
     = (Returned [], [Get None, Log Info])"
proof -
  have "replicate 1440 \<lparr>status_code = 404, headers = quiet_headers, json = ([] :: unit list)\<rparr>
      = \<lparr>status_code = 404, headers = quiet_headers, json = []\<rparr>
        # replicate 1439 \<lparr>status_code = 404, headers = quiet_headers, json = []\<rparr>"
    using replicate_Suc
      [of 1439 "\<lparr>status_code = 404, headers = quiet_headers, json = ([] :: unit list)\<rparr>"]
    by simp
  then show ?thesis
    by (simp add: users_lookup_def sample_runs log_bind io_then_def loop_head_def MAX_RETRY_def)
qed

text \<open>
  C8, as the code has it. users_show returns a pair of the status code and the decoded
  body. After fewer than MAX_RETRY responses with a status other than 200, 403 and 404
  (each retried, check_rate_limit completing on each), a response with status 200, 403
  or 404 on which check_rate_limit completes makes users_show return its status code
  and its body. Whatever the responses \<open>rs\<close> are, a pair users_show returns carries the
  status 200, 403 or 404, and is the status and body of one of the responses: no other
  status is ever returned.
\<close>

theorem users_show_status_passthrough:
  assumes "\<forall>q \<in> set pre. status_code q \<notin> {200, 403, 404}
             \<and> fst (check_rate_limit clock q) = Inr ()"
    and "length pre < MAX_RETRY"
    and "status_code r \<in> {200, 403, 404}"
    and "fst (check_rate_limit clock r) = Inr ()"
  shows "fst (users_show clock (pre @ r # rest)) = Returned (status_code r, json r)
       \<and> (fst (users_show clock rs) = Returned (s, b) \<longrightarrow>
            s \<in> {200, 403, 404} \<and> (\<exists>q \<in> set rs. status_code q = s \<and> json q = b))"
proof -
  have "fst (show_recv clock (length pre) (r # rest)) = Returned (status_code r, json r)"
    using assms(3,4) by (auto simp add: io_then_fst)
  then have "fst (users_show clock (pre @ r # rest)) = Returned (status_code r, json r)"
    using show_recv_retries [OF assms(1), of 0 "r # rest"] assms(2)
    by (simp add: users_show_def loop_head_fst MAX_RETRY_def)
  moreover have "s \<in> {200, 403, 404} \<and> (\<exists>q \<in> set rs. status_code q = s \<and> json q = b)"
    if "fst (users_show clock rs) = Returned (s, b)"
    using that show_recv_Returned [of clock 0 rs s b]
    by (simp add: users_show_def loop_head_fst MAX_RETRY_def)
  ultimately show ?thesis by blast
qed

theorem users_show_status_passthrough_witness:
  "fst (users_show sample_clock
     [\<lparr>status_code = 400, headers = quiet_headers, json = ''busy''\<rparr>,
      \<lparr>status_code = 500, headers = Map.empty, json = ''oops''\<rparr>,
      \<lparr>status_code = 403, headers = quiet_headers, json = ''suspended''\<rparr>])
   = Returned (403, ''suspended'')
   \<and> fst (users_show sample_clock
      [\<lparr>status_code = 200, headers = quiet_headers, json = ''profile''\<rparr>])
   = Returned (200, ''profile'')"
  using users_show_status_passthrough
    [of "[\<lparr>status_code = 400, headers = quiet_headers, json = ''busy''\<rparr>,
          \<lparr>status_code = 500, headers = Map.empty, json = ''oops''\<rparr>]"
      sample_clock
      "\<lparr>status_code = 403, headers = quiet_headers, json = ''suspended''\<rparr>" "[]"
      "[\<lparr>status_code = 200, headers = quiet_headers, json = ''profile''\<rparr>]" 200 "''profile''"]
  by (simp add: users_show_def sample_runs io_then_def loop_head_def MAX_RETRY_def)

text \<open>
  C8 as stated fails: on a 200 response whose remaining-calls header is not a number,
  check_rate_limit raises ValueError before the return statement is reached, and
  users_show raises instead of returning the pair.
\<close>

theorem users_show_success_raises:
  "users_show sample_clock
     [\<lparr>status_code = 200, headers = garbled_headers, json = ''profile''\<rparr>]
   = (Raised ValueError, [Get None])"
  by (simp add: users_show_def sample_runs io_then_def loop_head_def MAX_RETRY_def)

section \<open>Exceptions that leave the three operations\<close>

lemma check_rate_limit_headers:
  assumes "headers r = headers r'"
  shows "check_rate_limit clock r = check_rate_limit clock r'"
proof -
  have h: "header r k = header r' k" for k
    using assms by (simp add: header_def)
  show ?thesis
    unfolding check_rate_limit_def h by (rule refl)
qed

lemma readable_fields:
  "status_code (readable r) = status_code r" "headers (readable r) = headers r"
  "json (readable r) = Readable (json r)"
  by (simp_all add: readable_def)

lemma check_rate_limit_readable:
  "check_rate_limit clock (readable r) = check_rate_limit clock r"
  by (rule check_rate_limit_headers) (simp add: readable_fields)

lemmas readable_simps = readable_fields check_rate_limit_readable

lemma timeline_recv_raw_readable:
  "timeline_recv_raw clock st (map readable rs) = timeline_recv clock st rs"
  by (induction rs arbitrary: st) (simp_all add: readable_simps)

lemma lookup_recv_raw_readable:
  "lookup_recv_raw clock n (map readable rs) = lookup_recv clock n rs"
  by (induction rs arbitrary: n) (simp_all add: readable_simps)

lemma show_recv_raw_readable:
  "show_recv_raw clock n (map readable rs) = show_recv clock n rs"
  by (induction rs arbitrary: n) (simp_all add: readable_simps)

lemma raw_readable:
  "user_timeline_raw clock (map readable ts) = user_timeline clock ts"
  "users_lookup_raw clock (map readable ls) = users_lookup clock ls"
  "users_show_raw clock (map readable ss) = users_show clock ss"
  by (simp_all add: user_timeline_raw_def user_timeline_def users_lookup_raw_def users_lookup_def
      users_show_raw_def users_show_def timeline_recv_raw_readable lookup_recv_raw_readable
      show_recv_raw_readable)

lemma lookup_recv_raw_Raised:
  "fst (lookup_recv_raw clock n rs) = Raised e \<Longrightarrow> n < MAX_RETRY \<Longrightarrow>
     (e = SystemExit \<and> MAX_RETRY - n \<le> length rs
        \<and> (\<forall>r \<in> set (take (MAX_RETRY - n) rs). retried clock {200, 403, 404} r))
     \<or> (\<exists>r \<in> set rs. status_code r = 200 \<and> json r = Unreadable e)
     \<or> (\<exists>r \<in> set rs. fst (check_rate_limit clock r) = Inl e)"
proof (induction rs arbitrary: n)
  case Nil
  then show ?case by simp
next
  case (Cons r rs)
  show ?case
  proof (cases "fst (check_rate_limit clock r)")
    case (Inl e')
    with Cons.prems(1) have "e = e'"
      by (auto simp add: io_then_fst log_bind split: if_splits)
    with Inl show ?thesis by simp
  next
    case (Inr u)
    show ?thesis
    proof (cases "status_code r \<in> {200, 403, 404}")
      case True
      with Inr Cons.prems(1) have "status_code r = 200 \<and> json r = Unreadable e"
        by (auto simp add: io_then_fst log_bind split: if_splits body.splits)
      then show ?thesis by simp
    next
      case False
      with Inr have rt: "retried clock {200, 403, 404} r" by (simp add: retried_def)
      from False Inr Cons.prems(1)
      have step: "(if n + 1 < MAX_RETRY then fst (lookup_recv_raw clock (n + 1) rs)
                   else Raised SystemExit) = Raised e"
        by (auto simp add: io_then_fst log_bind loop_head_fst split: if_splits)
      show ?thesis
      proof (cases "n + 1 < MAX_RETRY")
        case True
        with step have "fst (lookup_recv_raw clock (n + 1) rs) = Raised e" by simp
        from Cons.IH [OF this True]
        consider (exit) "e = SystemExit" "MAX_RETRY - (n + 1) \<le> length rs"
            "\<forall>r \<in> set (take (MAX_RETRY - (n + 1)) rs). retried clock {200, 403, 404} r"
          | (body) "\<exists>r \<in> set rs. status_code r = 200 \<and> json r = Unreadable e"
          | (limit) "\<exists>r \<in> set rs. fst (check_rate_limit clock r) = Inl e"
          by blast
        then show ?thesis
        proof cases
          case exit
          have "take (MAX_RETRY - n) (r # rs) = r # take (MAX_RETRY - (n + 1)) rs"
            using True by (simp add: take_Cons')
          with exit rt True show ?thesis by auto
        next
          case body
          then show ?thesis by auto
        next
          case limit
          then show ?thesis by auto
        qed
      next
        case False
        with step Cons.prems(2) have "e = SystemExit" "MAX_RETRY - n = 1" by auto
        with rt show ?thesis by simp
      qed
    qed
  qed
qed

lemma show_recv_raw_Raised:
  "fst (show_recv_raw clock n rs) = Raised e \<Longrightarrow> n < MAX_RETRY \<Longrightarrow>
     (e = SystemExit \<and> MAX_RETRY - n \<le> length rs
        \<and> (\<forall>r \<in> set (take (MAX_RETRY - n) rs). retried clock {200, 403, 404} r))
     \<or> (\<exists>r \<in> set rs. status_code r \<in> {200, 403, 404} \<and> json r = Unreadable e)
     \<or> (\<exists>r \<in> set rs. fst (check_rate_limit clock r) = Inl e)"
proof (induction rs arbitrary: n)
  case Nil
  then show ?case by simp
next
  case (Cons r rs)
  show ?case
  proof (cases "fst (check_rate_limit clock r)")
    case (Inl e')
    with Cons.prems(1) have "e = e'"
      by (auto simp add: io_then_fst log_bind split: if_splits)
    with Inl show ?thesis by simp
  next
    case (Inr u)
    show ?thesis
    proof (cases "status_code r \<in> {200, 403, 404}")
      case True
      with Inr Cons.prems(1) have "json r = Unreadable e"
        by (auto simp add: io_then_fst split: if_splits body.splits)
      with True show ?thesis by simp
    next
      case False
      with Inr have rt: "retried clock {200, 403, 404} r" by (simp add: retried_def)
      from False Inr Cons.prems(1)
      have step: "(if n + 1 < MAX_RETRY then fst (show_recv_raw clock (n + 1) rs)
                   else Raised SystemExit) = Raised e"
        by (auto simp add: io_then_fst log_bind loop_head_fst split: if_splits)
      show ?thesis
      proof (cases "n + 1 < MAX_RETRY")
        case True
        with step have "fst (show_recv_raw clock (n + 1) rs) = Raised e" by simp
        from Cons.IH [OF this True]
        consider (exit) "e = SystemExit" "MAX_RETRY - (n + 1) \<le> length rs"
            "\<forall>r \<in> set (take (MAX_RETRY - (n + 1)) rs). retried clock {200, 403, 404} r"
          | (body) "\<exists>r \<in> set rs. status_code r \<in> {200, 403, 404} \<and> json r = Unreadable e"
          | (limit) "\<exists>r \<in> set rs. fst (check_rate_limit clock r) = Inl e"
          by blast
        then show ?thesis
        proof cases
          case exit
          have "take (MAX_RETRY - n) (r # rs) = r # take (MAX_RETRY - (n + 1)) rs"
            using True by (simp add: take_Cons')
          with exit rt True show ?thesis by auto
        next
          case body
          then show ?thesis by auto
        next
          case limit
          then show ?thesis by auto
        qed
      next
        case False
        with step Cons.prems(2) have "e = SystemExit" "MAX_RETRY - n = 1" by auto
        with rt show ?thesis by simp
      qed
    qed
  qed
qed

lemma timeline_recv_raw_Raised:
  "fst (timeline_recv_raw clock st rs) = Raised e \<Longrightarrow>
   finite (ids st) \<Longrightarrow> tcount st \<le> card (ids st) \<Longrightarrow> tries st < MAX_RETRY \<Longrightarrow>
     (e = SystemExit
        \<and> ((\<exists>ex rest. rs = ex @ rest \<and> tries st + length ex = MAX_RETRY
               \<and> (\<forall>r \<in> set ex. retried clock {200, 401, 403, 404} r))
           \<or> (\<exists>pre ex rest. rs = pre @ ex @ rest \<and> length ex = MAX_RETRY
               \<and> (\<forall>r \<in> set ex. retried clock {200, 401, 403, 404} r))))
     \<or> (\<exists>r \<in> set rs. status_code r = 200 \<and> json r = Unreadable e)
     \<or> (\<exists>r \<in> set rs. fst (check_rate_limit clock r) = Inl e)"
proof (induction rs arbitrary: st)
  case Nil
  then show ?case by simp
next
  case (Cons r rs)
  let ?R = "retried clock {200, 401, 403, 404}"
  have lift: ?case
    if "fst (timeline_recv_raw clock st' rs) = Raised e" and "finite (ids st')"
      and "tcount st' \<le> card (ids st')" and "tries st' < MAX_RETRY"
      and "tries st' = 0 \<or> (tries st' = tries st + 1 \<and> ?R r)" for st'
  proof -
    from Cons.IH [OF that(1-4)]
    consider (head) ex rest where "e = SystemExit" "rs = ex @ rest"
        "tries st' + length ex = MAX_RETRY" "\<forall>r \<in> set ex. ?R r"
      | (later) pre ex rest where "e = SystemExit" "rs = pre @ ex @ rest"
        "length ex = MAX_RETRY" "\<forall>r \<in> set ex. ?R r"
      | (body) "\<exists>r \<in> set rs. status_code r = 200 \<and> json r = Unreadable e"
      | (limit) "\<exists>r \<in> set rs. fst (check_rate_limit clock r) = Inl e"
      by blast
    then show ?thesis
    proof cases
      case head
      from that(5) show ?thesis
      proof
        assume "tries st' = 0"
        with head have "r # rs = [r] @ ex @ rest" "length ex = MAX_RETRY" by simp_all
        with head(1,4) show ?thesis by blast
      next
        assume a: "tries st' = tries st + 1 \<and> ?R r"
        with head have "r # rs = (r # ex) @ rest" "tries st + length (r # ex) = MAX_RETRY"
          "\<forall>q \<in> set (r # ex). ?R q" by simp_all
        with head(1) show ?thesis by blast
      qed
    next
      case later
      then have "r # rs = (r # pre) @ ex @ rest" by simp
      with later(1,3,4) show ?thesis by blast
    next
      case body
      then show ?thesis by auto
    next
      case limit
      then show ?thesis by auto
    qed
  qed
  show ?case
  proof (cases "fst (check_rate_limit clock r)")
    case (Inl e')
    show ?thesis
    proof (cases "status_code r = 200")
      case True
      show ?thesis
      proof (cases "json r")
        case (Unreadable e'')
        with True Cons.prems(1) show ?thesis by simp
      next
        case (Readable ts)
        let ?s1 = "fold add_tweet ts st"
        have "card (ids st) \<le> card (ids ?s1)"
          using Cons.prems(2) by (intro card_mono) (auto simp add: fold_add_tweet_fields)
        then have "ids ?s1 \<noteq> {}" if "card (ids ?s1) \<noteq> tcount ?s1"
          using that Cons.prems(3) by (auto simp add: fold_add_tweet_fields(2))
        with True Readable Inl Cons.prems(1) have "e = e'"
          by (auto simp add: io_then_fst split: if_splits)
        with Inl show ?thesis by simp
      qed
    next
      case False
      with Inl Cons.prems(1) have "e = e'"
        by (auto simp add: io_then_fst log_bind split: if_splits)
      with Inl show ?thesis by simp
    qed
  next
    case (Inr u)
    consider (page) "status_code r = 200"
      | (gone) "status_code r \<in> {401, 403, 404}"
      | (again) "status_code r \<notin> {200, 401, 403, 404}" by blast
    then show ?thesis
    proof cases
      case page
      show ?thesis
      proof (cases "json r")
        case (Unreadable e'')
        with page Cons.prems(1) show ?thesis by simp
      next
        case (Readable ts)
        let ?s1 = "fold add_tweet ts st"
        have fin: "finite (ids ?s1)" using Cons.prems(2) by (simp add: fold_add_tweet_fields)
        have "card (ids st) \<le> card (ids ?s1)"
          using fin by (intro card_mono) (auto simp add: fold_add_tweet_fields)
        then have "ids ?s1 \<noteq> {}" if "card (ids ?s1) \<noteq> tcount ?s1"
          using that Cons.prems(3) by (auto simp add: fold_add_tweet_fields(2))
        with page Readable Inr Cons.prems(1)
        have "fst (timeline_recv_raw clock (next_page ?s1) rs) = Raised e"
          by (auto simp add: io_then_fst loop_head_fst next_page_simps MAX_RETRY_def
              split: if_splits)
        then show ?thesis
          using fin by (intro lift [of "next_page ?s1"]) (simp_all add: next_page_simps MAX_RETRY_def)
      qed
    next
      case gone
      with Inr Cons.prems(1) show ?thesis
        by (auto simp add: io_then_fst log_bind split: if_splits)
    next
      case again
      with Inr have rt: "?R r" by (simp add: retried_def)
      from again Inr Cons.prems(1)
      have step: "(if tries st + 1 < MAX_RETRY then fst (timeline_recv_raw clock (retry st) rs)
                   else Raised SystemExit) = Raised e"
        by (auto simp add: io_then_fst log_bind loop_head_fst retry_simps split: if_splits)
      show ?thesis
      proof (cases "tries st + 1 < MAX_RETRY")
        case True
        with step have "fst (timeline_recv_raw clock (retry st) rs) = Raised e" by simp
        then show ?thesis
          using Cons.prems(2,3) True rt
          by (intro lift [of "retry st"]) (simp_all add: retry_simps)
      next
        case False
        with step Cons.prems(4) have "e = SystemExit" "tries st + length [r] = MAX_RETRY"
          by auto
        moreover have "r # rs = [r] @ rs" by simp
        ultimately show ?thesis using rt by (metis empty_iff empty_set set_ConsD)
      qed
    qed
  qed
qed

text \<open>
  C9, as the code has it. Whatever the responses are (status codes, headers and bodies),
  an exception that leaves user_timeline, users_lookup or users_show is one of three
  kinds. It is SystemExit, and then MAX_RETRY consecutive responses were retried (for
  users_lookup and users_show the first MAX_RETRY ones): the retries are exhausted. Or
  it was raised while the body of a response was read (status 200; for users_show 403
  and 404 too). Or check_rate_limit raised it on one of the responses, and that happens
  only for a header value that does not parse (ValueError from int, the error of the
  date parser) or for a duration that sleep rejects (negative, or longer than
  SLEEP_SAFE at least), never for an absent header. Status codes and absent headers are
  thus folded into the retry and backoff loop; header values that do not parse,
  rejected sleep durations and unreadable bodies are not.
\<close>

theorem escaping_exceptions:
  "(fst (user_timeline_raw clock ts) = Raised e1 \<longrightarrow>
      (e1 = SystemExit
         \<and> (\<exists>pre ex rest. ts = pre @ ex @ rest \<and> length ex = MAX_RETRY
               \<and> (\<forall>r \<in> set ex. retried clock {200, 401, 403, 404} r)))
      \<or> (\<exists>r \<in> set ts. status_code r = 200 \<and> json r = Unreadable e1)
      \<or> (\<exists>r \<in> set ts. fst (check_rate_limit clock r) = Inl e1))
   \<and> (fst (users_lookup_raw clock ls) = Raised e2 \<longrightarrow>
      (e2 = SystemExit \<and> MAX_RETRY \<le> length ls
         \<and> (\<forall>r \<in> set (take MAX_RETRY ls). retried clock {200, 403, 404} r))
      \<or> (\<exists>r \<in> set ls. status_code r = 200 \<and> json r = Unreadable e2)
      \<or> (\<exists>r \<in> set ls. fst (check_rate_limit clock r) = Inl e2))
   \<and> (fst (users_show_raw clock ss) = Raised e3 \<longrightarrow>
      (e3 = SystemExit \<and> MAX_RETRY \<le> length ss
         \<and> (\<forall>r \<in> set (take MAX_RETRY ss). retried clock {200, 403, 404} r))
      \<or> (\<exists>r \<in> set ss. status_code r \<in> {200, 403, 404} \<and> json r = Unreadable e3)
      \<or> (\<exists>r \<in> set ss. fst (check_rate_limit clock r) = Inl e3))
   \<and> (fst (check_rate_limit clock r) = Inl e \<longrightarrow>
      e = ValueError \<or> e = DateError \<or> (\<exists>d. (d < 0 \<or> SLEEP_SAFE < d) \<and> e = SleepError d))"
proof (intro conjI impI)
  assume "fst (user_timeline_raw clock ts) = Raised e1"
  then have "fst (timeline_recv_raw clock timeline_init ts) = Raised e1"
    by (simp add: user_timeline_raw_def loop_head_fst timeline_init_def MAX_RETRY_def)
  from timeline_recv_raw_Raised [OF this]
  show "(e1 = SystemExit
         \<and> (\<exists>pre ex rest. ts = pre @ ex @ rest \<and> length ex = MAX_RETRY
               \<and> (\<forall>r \<in> set ex. retried clock {200, 401, 403, 404} r)))
      \<or> (\<exists>r \<in> set ts. status_code r = 200 \<and> json r = Unreadable e1)
      \<or> (\<exists>r \<in> set ts. fst (check_rate_limit clock r) = Inl e1)"
    by (simp add: timeline_init_def MAX_RETRY_def) (metis append_Nil)
next
  assume "fst (users_lookup_raw clock ls) = Raised e2"
  then have "fst (lookup_recv_raw clock 0 ls) = Raised e2"
    by (simp add: users_lookup_raw_def loop_head_fst MAX_RETRY_def)
  from lookup_recv_raw_Raised [OF this]
  show "(e2 = SystemExit \<and> MAX_RETRY \<le> length ls
         \<and> (\<forall>r \<in> set (take MAX_RETRY ls). retried clock {200, 403, 404} r))
      \<or> (\<exists>r \<in> set ls. status_code r = 200 \<and> json r = Unreadable e2)
      \<or> (\<exists>r \<in> set ls. fst (check_rate_limit clock r) = Inl e2)"
    by (simp add: MAX_RETRY_def)
next
  assume "fst (users_show_raw clock ss) = Raised e3"
  then have "fst (show_recv_raw clock 0 ss) = Raised e3"
    by (simp add: users_show_raw_def loop_head_fst MAX_RETRY_def)
  from show_recv_raw_Raised [OF this]
  show "(e3 = SystemExit \<and> MAX_RETRY \<le> length ss
         \<and> (\<forall>r \<in> set (take MAX_RETRY ss). retried clock {200, 403, 404} r))
      \<or> (\<exists>r \<in> set ss. status_code r \<in> {200, 403, 404} \<and> json r = Unreadable e3)
      \<or> (\<exists>r \<in> set ss. fst (check_rate_limit clock r) = Inl e3)"
    by (simp add: MAX_RETRY_def)
next
  assume "fst (check_rate_limit clock r) = Inl e"
  then show "e = ValueError \<or> e = DateError \<or> (\<exists>d. (d < 0 \<or> SLEEP_SAFE < d) \<and> e = SleepError d)"
    by (rule check_rate_limit_raises)
qed

theorem escaping_exceptions_witness:
  "fst (user_timeline_raw sample_clock
      [\<lparr>status_code = 200, headers = quiet_headers,
         json = (Unreadable KeyError :: unit tweet list body)\<rparr>]) = Raised KeyError
   \<and> fst (users_lookup_raw sample_clock
      (replicate 1440 (readable \<lparr>status_code = 500, headers = Map.empty, json = ([] :: unit list)\<rparr>)))
       = Raised SystemExit
   \<and> fst (users_show_raw sample_clock
      [\<lparr>status_code = 404, headers = limit_headers ''100'', json = Readable ''gone''\<rparr>])
       = Raised (SleepError (- 840))
   \<and> fst (check_rate_limit sample_clock
      \<lparr>status_code = 200, headers = limit_headers ''10000000000'', json = ()\<rparr>)
       = Inl (SleepError 9999999060)"
proof -
  let ?r500 = "\<lparr>status_code = 500, headers = Map.empty, json = ([] :: unit list)\<rparr>"
  have "fst (users_lookup sample_clock (replicate 1440 ?r500)) = Raised SystemExit"
    using lookup_recv_retries [of "replicate 1440 ?r500" sample_clock 0]
    by (simp add: users_lookup_def loop_head_fst sample_runs MAX_RETRY_def)
  then have exit: "fst (users_lookup_raw sample_clock (replicate 1440 (readable ?r500)))
      = Raised SystemExit"
    using raw_readable(2) [of sample_clock "replicate 1440 ?r500"] by simp
  have rest: "fst (user_timeline_raw sample_clock
      [\<lparr>status_code = 200, headers = quiet_headers,
         json = (Unreadable KeyError :: unit tweet list body)\<rparr>]) = Raised KeyError"
    "fst (users_show_raw sample_clock
      [\<lparr>status_code = 404, headers = limit_headers ''100'', json = Readable ''gone''\<rparr>])
       = Raised (SleepError (- 840))"
    "fst (check_rate_limit sample_clock
      \<lparr>status_code = 200, headers = limit_headers ''10000000000'', json = ()\<rparr>)
       = Inl (SleepError 9999999060)"
    by (simp_all add: user_timeline_raw_def users_show_raw_def timeline_init_def sample_runs
        io_then_def loop_head_def MAX_RETRY_def)
  from exit rest
    escaping_exceptions [of sample_clock
      "[\<lparr>status_code = 200, headers = quiet_headers,
         json = (Unreadable KeyError :: unit tweet list body)\<rparr>]" KeyError
      "replicate 1440 (readable ?r500)" SystemExit
      "[\<lparr>status_code = 404, headers = limit_headers ''100'', json = Readable ''gone''\<rparr>]"
      "SleepError (- 840)"
      "\<lparr>status_code = 200, headers = limit_headers ''10000000000'', json = ()\<rparr>"
      "SleepError 9999999060"]
  show ?thesis by simp
qed

text \<open>
  C9 as stated fails: a 500 response whose remaining-calls header is not a number makes
  users_lookup raise ValueError, which is not the retry-exhaustion exit.
\<close>

theorem users_lookup_garbled_header_raises:
  "users_lookup sample_clock
      [\<lparr>status_code = 500, headers = garbled_headers, json = ([] :: unit list)\<rparr>]
   = (Raised ValueError, [Get None, Log Warn])"
  by (simp add: users_lookup_def sample_runs log_bind io_then_def loop_head_def MAX_RETRY_def)

end
